theory Spec2Isabelle
  imports Main "HOL-Library.AList"
begin

section \<open>Catalog model\<close>

text \<open>
  The catalog classes come from the catalog I/O library, which is not part of the
  sources; the entry is modelled from the data model of the specification.
  Strings are sequences of code points below 256.
\<close>

text \<open>
  Modelled from the spec: the catalog entry type of the catalog I/O library is missing.
  \<open>msgid_plural\<close> is an optional string; the code only tests its truthiness
  (\<^verbatim>\<open>if entry.msgid_plural\<close>), so absence is the empty string.
  \<open>msgstr_plural\<close> is the dict-like object \<^verbatim>\<open>{0: "form0", 1: "form1"}\<close> of the
  code's comment: an association list read through \<open>map_of\<close>, in insertion order.
\<close>

record po_entry =
  msgid :: string
  msgid_plural :: string
  msgstr :: string
  msgstr_plural :: "(nat \<times> string) list"
  occurrences :: "(string \<times> nat) list"
  fuzzy :: bool

type_synonym catalog = "po_entry list"

text \<open>
  Modelled from the spec: \<^verbatim>\<open>po.find(msgid)\<close> of the catalog I/O library is missing;
  the lookup is exact and returns the first entry carrying the msgid. The model
  returns the position of the entry object, since the caller mutates it in place.
\<close>

fun po_find :: "catalog \<Rightarrow> string \<Rightarrow> nat option" where
  "po_find [] m = None"
| "po_find (e # es) m = (if msgid e = m then Some 0 else map_option Suc (po_find es m))"

text \<open>\<^verbatim>\<open>len(d)\<close> of a dict: the number of its keys.\<close>

definition dict_len :: "(nat \<times> string) list \<Rightarrow> nat" where
  "dict_len d = length (remdups (map fst d))"

text \<open>
  Modelled from the spec: \<^verbatim>\<open>entry.translated()\<close> of the catalog I/O library is
  missing. Derived state: true iff \<open>msgstr\<close> is non-empty (singular) or all plural
  slots are non-empty (plural).
\<close>

definition translated :: "po_entry \<Rightarrow> bool" where
  "translated e =
     (if msgid_plural e = [] then msgstr e \<noteq> []
      else list_all (\<lambda>k. map_of (msgstr_plural e) k \<noteq> Some []) (map fst (msgstr_plural e)))"

section \<open>Merge engine (update.py)\<close>

text \<open>
  The values of the merged JSON object. A structured value is a dict that may or may not
  carry the key \<^verbatim>\<open>msgstr\<close>, whose value is a list of strings, a string or any other
  JSON value. Any other JSON value in place of the record is \<open>OtherJson\<close>.
\<close>

datatype msgstr_value = MsgList "string list" | MsgStr string | MsgOther

datatype translation_data = LegacyStr string | Structured "msgstr_value option" | OtherJson

record counters =
  updated_count :: nat
  skipped_count :: nat
  not_found_count :: nat

definition zero_counters :: counters where
  "zero_counters = \<lparr>updated_count = 0, skipped_count = 0, not_found_count = 0\<rparr>"

datatype error = KeyError nat

text \<open>\<^verbatim>\<open>str.isspace\<close> on the code points below 256.\<close>

definition py_isspace :: "char \<Rightarrow> bool" where
  "py_isspace c = ((of_char c :: nat) \<in> {9, 10, 11, 12, 13, 28, 29, 30, 31, 32, 133, 160})"

text \<open>\<^verbatim>\<open>s.strip()\<close>: whitespace removed at both ends.\<close>

definition py_strip :: "string \<Rightarrow> string" where
  "py_strip s = rev (dropWhile py_isspace (rev (dropWhile py_isspace s)))"

text \<open>\<^verbatim>\<open>not s or not s.strip()\<close>\<close>

definition is_blank :: "string \<Rightarrow> bool" where
  "is_blank s = (s = [] \<or> py_strip s = [])"

text \<open>
  Lines 56-59 and 118-121: the entry at position \<open>i\<close> gets the string unless it
  already holds it.
\<close>

definition set_msgstr :: "catalog \<Rightarrow> counters \<Rightarrow> nat \<Rightarrow> string \<Rightarrow> catalog \<times> counters" where
  "set_msgstr po c i s =
     (let entry = po ! i in
      if msgstr entry = [] \<or> msgstr entry \<noteq> s
      then (po[i := entry\<lparr>msgstr := s, fuzzy := False\<rparr>],
            c\<lparr>updated_count := updated_count c + 1\<rparr>)
      else (po, c))"

text \<open>
  Lines 91-99: the comparison loop over \<^verbatim>\<open>enumerate(msgstr_value)\<close>, from index
  \<open>idx\<close> on. Reading a key the dict does not hold raises \<^verbatim>\<open>KeyError\<close>.
\<close>

fun needs_update :: "(nat \<times> string) list \<Rightarrow> nat \<Rightarrow> string list \<Rightarrow> error + bool" where
  "needs_update d idx [] = Inr False"
| "needs_update d idx (t # ts) =
     (if idx < dict_len d
      then (case map_of d idx of
              None \<Rightarrow> Inl (KeyError idx)
            | Some v \<Rightarrow> if v \<noteq> t then Inr True else needs_update d (Suc idx) ts)
      else Inr True)"

text \<open>Lines 103-104: the assignment loop.\<close>

fun overwrite_plural :: "(nat \<times> string) list \<Rightarrow> nat \<Rightarrow> string list \<Rightarrow> (nat \<times> string) list" where
  "overwrite_plural d idx [] = d"
| "overwrite_plural d idx (t # ts) = overwrite_plural (AList.update idx t d) (Suc idx) ts"

definition skip :: "catalog \<Rightarrow> counters \<Rightarrow> catalog \<times> counters" where
  "skip po c = (po, c\<lparr>skipped_count := skipped_count c + 1\<rparr>)"

definition miss :: "catalog \<Rightarrow> counters \<Rightarrow> catalog \<times> counters" where
  "miss po c = (po, c\<lparr>not_found_count := not_found_count c + 1\<rparr>)"

text \<open>Lines 78-110: a list of plural forms for the entry at position \<open>i\<close>.\<close>

definition set_plural :: "catalog \<Rightarrow> counters \<Rightarrow> nat \<Rightarrow> string list \<Rightarrow> error + catalog \<times> counters" where
  "set_plural po c i ts =
     (let entry = po ! i in
      if msgid_plural entry = [] then Inr (skip po c)
      else if \<not> list_ex (\<lambda>s. \<not> is_blank s) ts then Inr (skip po c)
      else (case needs_update (msgstr_plural entry) 0 ts of
              Inl e \<Rightarrow> Inl e
            | Inr False \<Rightarrow> Inr (po, c)
            | Inr True \<Rightarrow>
                Inr (po[i := entry\<lparr>msgstr_plural := overwrite_plural (msgstr_plural entry) 0 ts,
                                   fuzzy := False\<rparr>],
                     c\<lparr>updated_count := updated_count c + 1\<rparr>)))"

text \<open>Lines 40-126: the body of the loop over \<^verbatim>\<open>translations.items()\<close>.\<close>

fun merge_record :: "catalog \<times> counters \<Rightarrow> string \<times> translation_data \<Rightarrow> error + catalog \<times> counters" where
  "merge_record (po, c) (m, LegacyStr s) =
     (if is_blank s then Inr (skip po c)
      else (case po_find po m of
              Some i \<Rightarrow> Inr (set_msgstr po c i s)
            | None \<Rightarrow> Inr (miss po c)))"
| "merge_record (po, c) (m, Structured d) =
     (case po_find po m of
        None \<Rightarrow> Inr (miss po c)
      | Some i \<Rightarrow>
          (case d of
             Some (MsgList ts) \<Rightarrow> set_plural po c i ts
           | Some (MsgStr s) \<Rightarrow> if is_blank s then Inr (skip po c) else Inr (set_msgstr po c i s)
           | Some MsgOther \<Rightarrow> Inr (po, c)
           | None \<Rightarrow> Inr (skip po c)))"
| "merge_record (po, c) (m, OtherJson) = Inr (po, c)"

fun merge_loop :: "catalog \<times> counters \<Rightarrow> (string \<times> translation_data) list \<Rightarrow> error + catalog \<times> counters" where
  "merge_loop st [] = Inr st"
| "merge_loop st (r # rs) =
     (case merge_record st r of Inl e \<Rightarrow> Inl e | Inr st' \<Rightarrow> merge_loop st' rs)"

text \<open>Lines 36-126: the counters start at zero.\<close>

definition merge :: "catalog \<Rightarrow> (string \<times> translation_data) list \<Rightarrow> error + catalog \<times> counters" where
  "merge po translations = merge_loop (po, zero_counters) translations"

section \<open>Compilation (compile.py)\<close>

text \<open>
  \<^verbatim>\<open>str.replace(old, new)\<close>: every non-overlapping occurrence of \<open>old\<close>, from the
  left, is replaced by \<open>new\<close>; an empty \<open>old\<close> matches before every character and at
  the end.
\<close>

fun py_replace :: "string \<Rightarrow> string \<Rightarrow> string \<Rightarrow> string" where
  "py_replace old new [] = (if old = [] then new else [])"
| "py_replace old new (c # cs) =
     (if old = [] then new @ c # py_replace old new cs
      else if take (length old) (c # cs) = old
      then new @ py_replace old new (drop (length old) (c # cs))
      else c # py_replace old new cs)"

text \<open>Line 10 of compile.py: \<^verbatim>\<open>mo_file_path = args.po_file.replace('.po', '.mo')\<close>\<close>

definition mo_file_path :: "string \<Rightarrow> string" where
  "mo_file_path po_file = py_replace ''.po'' ''.mo'' po_file"

text \<open>\<^verbatim>\<open>s.endswith(suffix)\<close>\<close>

definition py_endswith :: "string \<Rightarrow> string \<Rightarrow> bool" where
  "py_endswith s suf = (length suf \<le> length s \<and> drop (length s - length suf) s = suf)"

text \<open>
  The specification's words, for comparison: the binary file lies at the sibling path
  with the textual catalog's extension replaced. A path that does not carry the textual
  extension has no such sibling.
\<close>

definition spec_sibling_path :: "string \<Rightarrow> string option" where
  "spec_sibling_path po_file =
     (if py_endswith po_file ''.po''
      then Some (take (length po_file - 3) po_file @ ''.mo'')
      else None)"

section \<open>Extraction\<close>

text \<open>The dict written to the exchange file: \<^verbatim>\<open>{"msgid": ..., "msgid_plural": ...}\<close>.\<close>

record exchange_record =
  rec_msgid :: string
  rec_msgid_plural :: "string option"

text \<open>
  \<^verbatim>\<open>entry_dict = {"msgid": msgid}\<close>, with \<^verbatim>\<open>msgid_plural\<close> when the entry's is truthy.
\<close>

definition entry_dict :: "string \<Rightarrow> po_entry \<Rightarrow> exchange_record" where
  "entry_dict m entry =
     \<lparr>rec_msgid = m,
      rec_msgid_plural = (if msgid_plural entry \<noteq> [] then Some (msgid_plural entry) else None)\<rparr>"

text \<open>\<^verbatim>\<open>any(item.get("msgid") == msgid for item in translateables)\<close>\<close>

definition already_added :: "exchange_record list \<Rightarrow> string \<Rightarrow> bool" where
  "already_added translateables m = list_ex (\<lambda>item. rec_msgid item = m) translateables"

definition append_new :: "exchange_record list \<Rightarrow> string \<Rightarrow> po_entry \<Rightarrow> exchange_record list" where
  "append_new translateables m entry =
     (if \<not> already_added translateables m then translateables @ [entry_dict m entry]
      else translateables)"

subsection \<open>Template sources (html.py)\<close>

text \<open>Lines 27-32: the loop over the occurrences, left at the first HTML file.\<close>

fun has_html_source :: "(string \<times> nat) list \<Rightarrow> bool" where
  "has_html_source [] = False"
| "has_html_source ((file_path, line_num) # rest) =
     (if py_endswith file_path ''.html'' then True else has_html_source rest)"

definition html_entry :: "exchange_record list \<Rightarrow> po_entry \<Rightarrow> exchange_record list" where
  "html_entry translateables entry =
     (if translated entry then translateables
      else if \<not> has_html_source (occurrences entry) then translateables
      else append_new translateables (msgid entry) entry)"

fun html_loop :: "exchange_record list \<Rightarrow> catalog \<Rightarrow> exchange_record list" where
  "html_loop translateables [] = translateables"
| "html_loop translateables (entry # rest) = html_loop (html_entry translateables entry) rest"

definition html_run :: "catalog \<Rightarrow> exchange_record list" where
  "html_run po = html_loop [] po"

subsection \<open>The interpreter and the file system\<close>

text \<open>A Python value: \<^verbatim>\<open>None\<close> or an object.\<close>

datatype 'o pyval = PyNone | PyObj 'o

text \<open>
  What the extraction reads from outside the catalog, as parameters: the operations of
  \<^verbatim>\<open>pathlib\<close> on the path objects \<open>'p\<close> (with the package root \<^verbatim>\<open>mod_root\<close> fixed),
  the table \<^verbatim>\<open>sys.modules\<close>, and attribute lookup (\<^verbatim>\<open>hasattr\<close> is \<open>py_getattr\<close>
  being defined, \<^verbatim>\<open>getattr\<close> its value).
\<close>

record ('p, 'o) environment =
  mk_path :: "string \<Rightarrow> 'p"
  is_absolute :: "'p \<Rightarrow> bool"
  under_root :: "string \<Rightarrow> 'p"
  path_exists :: "'p \<Rightarrow> bool"
  path_suffix :: "'p \<Rightarrow> string"
  without_suffix :: "'p \<Rightarrow> 'p"
  relative_to_root :: "'p \<Rightarrow> 'p option"
  path_str :: "'p \<Rightarrow> string"
  path_stem :: "'p \<Rightarrow> string"
  sys_modules :: "string \<Rightarrow> 'o pyval option"
  py_getattr :: "'o pyval \<Rightarrow> string \<Rightarrow> 'o pyval option"

text \<open>\<^verbatim>\<open>s.split(sep)\<close> for a separator of one character, and \<^verbatim>\<open>sep.join(parts)\<close>.\<close>

fun py_split :: "char \<Rightarrow> string \<Rightarrow> string list" where
  "py_split sep [] = [[]]"
| "py_split sep (c # cs) =
     (if c = sep then [] # py_split sep cs
      else (case py_split sep cs of [] \<Rightarrow> [[c]] | w # ws \<Rightarrow> (c # w) # ws))"

fun py_join :: "string \<Rightarrow> string list \<Rightarrow> string" where
  "py_join sep [] = []"
| "py_join sep [x] = x"
| "py_join sep (x # y # ys) = x @ sep @ py_join sep (y # ys)"

subsection \<open>Module paths (modules.py)\<close>

text \<open>Lines 35-40: the path of an occurrence, relative ones under the package root.\<close>

definition abs_file_path :: "('p, 'o) environment \<Rightarrow> string \<Rightarrow> 'p" where
  "abs_file_path env file_path =
     (if \<not> is_absolute env (mk_path env file_path) then under_root env file_path
      else mk_path env file_path)"

text \<open>
  Lines 49-64: the dotted module name of an existing file; \<^verbatim>\<open>relative_to\<close> raises
  \<^verbatim>\<open>ValueError\<close> (here \<open>None\<close>) for a path outside the root, and the handler takes
  the stem.
\<close>

definition module_name_of :: "('p, 'o) environment \<Rightarrow> 'p \<Rightarrow> string" where
  "module_name_of env p =
     (let module_path = (if path_suffix env p = ''.py'' then without_suffix env p else p) in
      case relative_to_root env module_path of
        Some rel_path \<Rightarrow>
          py_replace [CHR 0x5C] ''.'' (py_replace ''/'' ''.'' (path_str env rel_path))
      | None \<Rightarrow> path_stem env module_path)"

text \<open>
  Lines 80-86: the loop \<^verbatim>\<open>for j in range(i, len(parts))\<close> over the remaining parts;
  the result is whether \<^verbatim>\<open>module_imported\<close> was set, which happens at the last part.
\<close>

fun attribute_loop :: "('p, 'o) environment \<Rightarrow> 'o pyval \<Rightarrow> string list \<Rightarrow> bool" where
  "attribute_loop env obj [] = False"
| "attribute_loop env obj (part # rest) =
     (case py_getattr env obj part of
        None \<Rightarrow> False
      | Some v \<Rightarrow> if rest = [] then True else attribute_loop env v rest)"

text \<open>Lines 75-88: the loop \<^verbatim>\<open>for i in range(len(parts), 0, -1)\<close>, at \<open>i\<close>.\<close>

fun prefix_loop :: "('p, 'o) environment \<Rightarrow> string list \<Rightarrow> nat \<Rightarrow> bool" where
  "prefix_loop env parts 0 = False"
| "prefix_loop env parts (Suc n) =
     (case sys_modules env (py_join ''.'' (take (Suc n) parts)) of
        Some obj \<Rightarrow>
          if attribute_loop env obj (drop (Suc n) parts) then True
          else prefix_loop env parts n
      | None \<Rightarrow> prefix_loop env parts n)"

text \<open>Lines 67-88.\<close>

definition module_imported :: "('p, 'o) environment \<Rightarrow> string \<Rightarrow> bool" where
  "module_imported env name =
     (if sys_modules env name \<noteq> None then True
      else (let parts = py_split (CHR ''.'') name in prefix_loop env parts (length parts)))"

text \<open>
  Lines 31-112: the loop over the occurrences of one entry. A missing file is skipped,
  the first imported module adds the entry (once) and leaves the loop.
\<close>

fun occurrence_loop ::
  "('p, 'o) environment \<Rightarrow> exchange_record list \<Rightarrow> po_entry \<Rightarrow> (string \<times> nat) list \<Rightarrow> exchange_record list" where
  "occurrence_loop env translateables entry [] = translateables"
| "occurrence_loop env translateables entry ((file_path, line_num) # rest) =
     (if \<not> path_exists env (abs_file_path env file_path)
      then occurrence_loop env translateables entry rest
      else if module_imported env (module_name_of env (abs_file_path env file_path))
      then append_new translateables (msgid entry) entry
      else occurrence_loop env translateables entry rest)"

definition modules_entry ::
  "('p, 'o) environment \<Rightarrow> exchange_record list \<Rightarrow> po_entry \<Rightarrow> exchange_record list" where
  "modules_entry env translateables entry =
     (if translated entry then translateables
      else occurrence_loop env translateables entry (occurrences entry))"

fun modules_loop ::
  "('p, 'o) environment \<Rightarrow> exchange_record list \<Rightarrow> catalog \<Rightarrow> exchange_record list" where
  "modules_loop env translateables [] = translateables"
| "modules_loop env translateables (entry # rest) =
     modules_loop env (modules_entry env translateables entry) rest"

definition modules_run :: "('p, 'o) environment \<Rightarrow> catalog \<Rightarrow> exchange_record list" where
  "modules_run env po = modules_loop env [] po"




subsection \<open>Dotted symbols (helptexts.py)\<close>

text \<open>
  Lines 23-33: the loop \<^verbatim>\<open>for i, part in enumerate(parts)\<close> from index \<open>i\<close> on, with
  the current \<^verbatim>\<open>obj\<close>; the result is \<^verbatim>\<open>obj\<close> after the loop.
\<close>

fun walk :: "('p, 'o) environment \<Rightarrow> string list \<Rightarrow> nat \<Rightarrow> 'o pyval \<Rightarrow> string list \<Rightarrow> 'o pyval" where
  "walk env parts i obj [] = obj"
| "walk env parts i obj (part # rest) =
     (case sys_modules env (py_join ''.'' (take (i + 1) parts)) of
        Some m \<Rightarrow> walk env parts (i + 1) m rest
      | None \<Rightarrow>
          if obj \<noteq> PyNone
          then (case py_getattr env obj part of
                  Some v \<Rightarrow> walk env parts (i + 1) v rest
                | None \<Rightarrow> PyNone)
          else PyNone)"

definition resolve_key :: "('p, 'o) environment \<Rightarrow> string \<Rightarrow> 'o pyval" where
  "resolve_key env k = (let parts = py_split (CHR ''.'') k in walk env parts 0 PyNone parts)"

text \<open>
  Lines 21-59: the body of the loop over the keys of \<^verbatim>\<open>help_texts\<close>, a dict given by
  its items in key order; \<open>string\<close> is \<^verbatim>\<open>str(help_texts[k])\<close>.
\<close>

definition helptexts_key ::
  "('p, 'o) environment \<Rightarrow> catalog \<Rightarrow> exchange_record list \<Rightarrow> string \<times> string \<Rightarrow> exchange_record list" where
  "helptexts_key env po translateables item =
     (case item of (k, string) \<Rightarrow>
        if resolve_key env k \<noteq> PyNone
        then (case po_find po string of
                Some i \<Rightarrow>
                  if \<not> translated (po ! i) then append_new translateables string (po ! i)
                  else translateables
              | None \<Rightarrow> translateables)
        else translateables)"

fun helptexts_loop ::
  "('p, 'o) environment \<Rightarrow> catalog \<Rightarrow> exchange_record list \<Rightarrow> (string \<times> string) list \<Rightarrow> exchange_record list" where
  "helptexts_loop env po translateables [] = translateables"
| "helptexts_loop env po translateables (item # rest) =
     helptexts_loop env po (helptexts_key env po translateables item) rest"

definition helptexts_run ::
  "('p, 'o) environment \<Rightarrow> catalog \<Rightarrow> (string \<times> string) list \<Rightarrow> exchange_record list" where
  "helptexts_run env po help_texts = helptexts_loop env po [] help_texts"

text \<open>
  The specification's words, for comparison with \<open>walk\<close>: a segment is resolved when the
  entire prefix so far resolves directly, which replaces the current object, or else when
  it is an attribute of the previously resolved object; the key resolves iff every segment
  is resolved one of those two ways. \<open>cur\<close> is the previously resolved object, if any.
\<close>

fun spec_walk ::
  "('p, 'o) environment \<Rightarrow> string list \<Rightarrow> nat \<Rightarrow> 'o pyval option \<Rightarrow> string list \<Rightarrow> bool" where
  "spec_walk env parts i cur [] = True"
| "spec_walk env parts i cur (part # rest) =
     (case sys_modules env (py_join ''.'' (take (i + 1) parts)) of
        Some m \<Rightarrow> spec_walk env parts (i + 1) (Some m) rest
      | None \<Rightarrow>
          (case cur of
             None \<Rightarrow> False
           | Some obj \<Rightarrow>
               (case py_getattr env obj part of
                  Some v \<Rightarrow> spec_walk env parts (i + 1) (Some v) rest
                | None \<Rightarrow> False)))"

definition spec_resolves :: "('p, 'o) environment \<Rightarrow> string \<Rightarrow> bool" where
  "spec_resolves env k = (let parts = py_split (CHR ''.'') k in spec_walk env parts 0 None parts)"

section \<open>Derived notions used in the statements\<close>

text \<open>The sum of the three counters of a merge.\<close>

definition counters_total :: "counters \<Rightarrow> nat" where
  "counters_total c = updated_count c + skipped_count c + not_found_count c"

text \<open>
  The entries and help texts an extraction selects, before the check for a msgid that
  was added already: untranslated and reachable under the strategy.
\<close>

definition html_candidate :: "po_entry \<Rightarrow> bool" where
  "html_candidate entry = (\<not> translated entry \<and> has_html_source (occurrences entry))"

definition occurrence_imported :: "('p, 'o) environment \<Rightarrow> string \<times> nat \<Rightarrow> bool" where
  "occurrence_imported env occurrence =
     (case occurrence of (file_path, line_num) \<Rightarrow>
        path_exists env (abs_file_path env file_path) \<and>
        module_imported env (module_name_of env (abs_file_path env file_path)))"

definition modules_candidate :: "('p, 'o) environment \<Rightarrow> po_entry \<Rightarrow> bool" where
  "modules_candidate env entry =
     (\<not> translated entry \<and> list_ex (occurrence_imported env) (occurrences entry))"

definition helptexts_candidate ::
  "('p, 'o) environment \<Rightarrow> catalog \<Rightarrow> string \<times> string \<Rightarrow> bool" where
  "helptexts_candidate env po item =
     (case item of (k, string) \<Rightarrow>
        resolve_key env k \<noteq> PyNone \<and>
        (case po_find po string of Some i \<Rightarrow> \<not> translated (po ! i) | None \<Rightarrow> False))"

text \<open>
  The common shape of the three extraction loops: a selected element adds its record
  unless a record with that msgid is in the list already.
\<close>

fun collect ::
  "('x \<Rightarrow> bool) \<Rightarrow> ('x \<Rightarrow> exchange_record) \<Rightarrow> exchange_record list \<Rightarrow> 'x list \<Rightarrow> exchange_record list" where
  "collect cand rec acc [] = acc"
| "collect cand rec acc (x # xs) =
     collect cand rec
       (if cand x \<and> \<not> already_added acc (rec_msgid (rec x)) then acc @ [rec x] else acc) xs"



subsection \<open>Examples\<close>

text \<open>
  An environment for the examples: the package root is \<^verbatim>\<open>/srv\<close>, paths are their strings,
  the only file is \<^verbatim>\<open>/srv/pkg/sub/mod.py\<close>, the loaded modules are \<^verbatim>\<open>pkg\<close>,
  \<^verbatim>\<open>pkg.sub\<close>, \<^verbatim>\<open>pkg.sub.mod\<close> and \<^verbatim>\<open>app\<close>, and the only attribute is \<^verbatim>\<open>app.title\<close>, whose value is \<^verbatim>\<open>None\<close>.
\<close>

definition example_env :: "(string, string) environment" where
  "example_env =
     \<lparr>mk_path = (\<lambda>s. s),
      is_absolute = (\<lambda>p. take 1 p = ''/''),
      under_root = (\<lambda>s. ''/srv/'' @ s),
      path_exists = (\<lambda>p. p = ''/srv/pkg/sub/mod.py''),
      path_suffix = (\<lambda>p. if py_endswith p ''.py'' then ''.py'' else []),
      without_suffix = (\<lambda>p. take (length p - 3) p),
      relative_to_root = (\<lambda>p. if take 5 p = ''/srv/'' then Some (drop 5 p) else None),
      path_str = (\<lambda>p. p),
      path_stem = (\<lambda>p. p),
      sys_modules = [''pkg'' \<mapsto> PyObj ''pkg'', ''pkg.sub'' \<mapsto> PyObj ''sub'',
                     ''pkg.sub.mod'' \<mapsto> PyObj ''mod'', ''app'' \<mapsto> PyObj ''app''],
      py_getattr = (\<lambda>obj part. if obj = PyObj ''app'' \<and> part = ''title'' then Some PyNone else None)\<rparr>"

text \<open>An entry without translation, singular or with two empty plural slots.\<close>

definition untranslated_entry :: "string \<Rightarrow> string \<Rightarrow> (string \<times> nat) list \<Rightarrow> po_entry" where
  "untranslated_entry m mp occs =
     \<lparr>msgid = m, msgid_plural = mp, msgstr = [],
      msgstr_plural = (if mp = [] then [] else [(0, []), (1, [])]),
      occurrences = occs, fuzzy = False\<rparr>"

section \<open>Basic facts\<close>

lemma dropWhile_all: "(\<forall>x\<in>set (dropWhile P s). P x) \<longleftrightarrow> (\<forall>x\<in>set s. P x)"
proof
  assume h: "\<forall>x\<in>set (dropWhile P s). P x"
  have "dropWhile P s = []"
  proof (rule ccontr)
    assume n: "dropWhile P s \<noteq> []"
    then have "\<not> P (hd (dropWhile P s))" by (rule hd_dropWhile)
    moreover have "hd (dropWhile P s) \<in> set (dropWhile P s)" using n by simp
    ultimately show False using h by blast
  qed
  then show "\<forall>x\<in>set s. P x" by simp
next
  assume "\<forall>x\<in>set s. P x"
  then show "\<forall>x\<in>set (dropWhile P s). P x" using set_dropWhileD by fastforce
qed

lemma is_blank_iff: "is_blank s = list_all py_isspace s"
  by (auto simp: is_blank_def py_strip_def list_all_iff dropWhile_all)

lemma po_find_Some: "po_find po m = Some i \<Longrightarrow> i < length po \<and> msgid (po ! i) = m"
  by (induction po arbitrary: i) (auto split: if_splits)

lemma po_find_None: "po_find po m = None \<longleftrightarrow> m \<notin> msgid ` set po"
  by (induction po) auto



section \<open>Merge: records without a catalog entry\<close>

text \<open>
  Claim C1, as the code has it. A record whose msgid matches no catalog entry adds
  exactly 1 to \<open>not_found\<close>, leaves the catalog as it is and the loop goes on with the
  remaining records, when the value is a structured object (whatever it holds) or a
  legacy string with a character that is not whitespace. A legacy string that is empty
  or all whitespace is counted as skipped instead: the legacy branch tests the string
  before it looks the msgid up.
\<close>

theorem not_found_accounting:
  assumes "po_find po m = None"
  shows "merge_loop (po, c) ((m, Structured x) # rs) =
           merge_loop (po, c\<lparr>not_found_count := not_found_count c + 1\<rparr>) rs \<and>
         (\<not> is_blank s \<longrightarrow>
            merge_loop (po, c) ((m, LegacyStr s) # rs) =
            merge_loop (po, c\<lparr>not_found_count := not_found_count c + 1\<rparr>) rs) \<and>
         (is_blank s \<longrightarrow>
            merge_loop (po, c) ((m, LegacyStr s) # rs) =
            merge_loop (po, c\<lparr>skipped_count := skipped_count c + 1\<rparr>) rs)"
  using assms by (auto simp: miss_def skip_def)

theorem not_found_accounting_witness:
  "po_find [] ''Save'' = None \<and>
   merge_loop ([], zero_counters) [(''Save'', Structured None)] =
     Inr ([], \<lparr>updated_count = 0, skipped_count = 0, not_found_count = 1\<rparr>) \<and>
   merge_loop ([], zero_counters) [(''Save'', LegacyStr ''x'')] =
     Inr ([], \<lparr>updated_count = 0, skipped_count = 0, not_found_count = 1\<rparr>) \<and>
   merge_loop ([], zero_counters) [(''Save'', LegacyStr '' '')] =
     Inr ([], \<lparr>updated_count = 0, skipped_count = 1, not_found_count = 0\<rparr>)"
proof -
  have b: "is_blank '' ''" "\<not> is_blank ''x''"
    by (simp_all add: is_blank_def py_strip_def py_isspace_def)
  have f: "po_find [] ''Save'' = None" by simp
  from not_found_accounting [OF f, where x = None and s = "''x''" and c = zero_counters and rs = "[]"]
    not_found_accounting [OF f, where x = None and s = "'' ''" and c = zero_counters and rs = "[]"]
    b f
  show ?thesis by (simp add: zero_counters_def)
qed

text \<open>
  The claim as stated fails for a blank legacy string: the msgid matches no entry, yet
  \<open>not_found\<close> stays 0 and \<open>skipped\<close> becomes 1.
\<close>

theorem not_found_blank_legacy_counterexample:
  "po_find [] ''Save'' = None \<and>
   merge [] [(''Save'', LegacyStr ''  '')] =
     Inr ([], \<lparr>updated_count = 0, skipped_count = 1, not_found_count = 0\<rparr>)"
  by (simp add: merge_def is_blank_def py_strip_def py_isspace_def skip_def zero_counters_def)

section \<open>Compilation: the path of the binary file\<close>

text \<open>
  Claim C2. The binary file is to lie at the sibling path with the extension replaced.
  \<open>mo_file_path\<close> replaces every \<^verbatim>\<open>.po\<close> in the path, also in a directory name: for
  the catalog below it names a file in another directory.
\<close>

theorem mo_file_path_not_sibling:
  "mo_file_path ''/srv/.pool/bn/django.po'' = ''/srv/.mool/bn/django.mo'' \<and>
   spec_sibling_path ''/srv/.pool/bn/django.po'' = Some ''/srv/.pool/bn/django.mo''"
  by (simp add: mo_file_path_def spec_sibling_path_def py_endswith_def)

section \<open>Merge: plural forms for an entry without a plural\<close>

text \<open>
  Claim C5. A record with a list of plural forms, for an entry that is found and does
  not declare \<open>msgid_plural\<close>: \<open>skipped\<close> grows by exactly 1, \<open>updated\<close> and the
  catalog stay as they are, and the loop goes on with the remaining records.
\<close>

theorem plural_on_singular_skipped:
  assumes "po_find po m = Some i" and "msgid_plural (po ! i) = []"
  shows "merge_loop (po, c) ((m, Structured (Some (MsgList ts))) # rs) =
         merge_loop (po, c\<lparr>skipped_count := skipped_count c + 1\<rparr>) rs"
  using assms by (simp add: set_plural_def skip_def)

theorem plural_on_singular_skipped_witness:
  "po_find [\<lparr>msgid = ''Save'', msgid_plural = [], msgstr = [], msgstr_plural = [],
             occurrences = [], fuzzy = True\<rparr>] ''Save'' = Some 0 \<and>
   merge_loop ([\<lparr>msgid = ''Save'', msgid_plural = [], msgstr = [], msgstr_plural = [],
                 occurrences = [], fuzzy = True\<rparr>], zero_counters)
     [(''Save'', Structured (Some (MsgList [''a'', ''b''])))] =
   Inr ([\<lparr>msgid = ''Save'', msgid_plural = [], msgstr = [], msgstr_plural = [],
          occurrences = [], fuzzy = True\<rparr>],
        \<lparr>updated_count = 0, skipped_count = 1, not_found_count = 0\<rparr>)"
proof -
  let ?e = "\<lparr>msgid = ''Save'', msgid_plural = [], msgstr = [], msgstr_plural = [],
             occurrences = [], fuzzy = True\<rparr>"
  have f: "po_find [?e] ''Save'' = Some 0" by simp
  have p: "msgid_plural ([?e] ! 0) = []" by simp
  from plural_on_singular_skipped [OF f p, of zero_counters "[''a'', ''b'']" "[]"] f
  show ?thesis by (simp add: zero_counters_def)
qed

section \<open>Merge: the counters\<close>

lemma merge_record_counters:
  assumes "merge_record (po, c) r = Inr (po', c')"
  shows "c' = c \<or> c' = c\<lparr>updated_count := updated_count c + 1\<rparr> \<or>
         c' = c\<lparr>skipped_count := skipped_count c + 1\<rparr> \<or>
         c' = c\<lparr>not_found_count := not_found_count c + 1\<rparr>"
  using assms
  by (cases r; cases "snd r")
     (auto simp: skip_def miss_def set_msgstr_def set_plural_def Let_def
           split: if_splits option.splits msgstr_value.splits sum.splits bool.splits)

lemma merge_loop_total:
  "merge_loop (po, c) rs = Inr (po', c') \<Longrightarrow> counters_total c' \<le> counters_total c + length rs"
proof (induction rs arbitrary: po c)
  case Nil
  then show ?case by simp
next
  case (Cons r rs)
  then obtain po1 c1 where s: "merge_record (po, c) r = Inr (po1, c1)"
    and l: "merge_loop (po1, c1) rs = Inr (po', c')"
    by (auto split: sum.splits)
  from merge_record_counters [OF s] have "counters_total c1 \<le> counters_total c + 1"
    by (auto simp: counters_total_def)
  with Cons.IH [OF l] show ?case by simp
qed

text \<open>
  Claim C10. One record leaves the counters as they are or adds 1 to exactly one of them;
  after a merge that returns, the three counters sum to at most the number of records.
\<close>

theorem counter_accounting:
  "(merge_record (po, c) r = Inr (po1, c1) \<longrightarrow>
      c1 = c \<or> c1 = c\<lparr>updated_count := updated_count c + 1\<rparr> \<or>
      c1 = c\<lparr>skipped_count := skipped_count c + 1\<rparr> \<or>
      c1 = c\<lparr>not_found_count := not_found_count c + 1\<rparr>) \<and>
   (merge po translations = Inr (po', c') \<longrightarrow>
      updated_count c' + skipped_count c' + not_found_count c' \<le> length translations)"
proof (intro conjI impI)
  assume "merge_record (po, c) r = Inr (po1, c1)"
  then show "c1 = c \<or> c1 = c\<lparr>updated_count := updated_count c + 1\<rparr> \<or>
      c1 = c\<lparr>skipped_count := skipped_count c + 1\<rparr> \<or>
      c1 = c\<lparr>not_found_count := not_found_count c + 1\<rparr>"
    by (rule merge_record_counters)
next
  assume "merge po translations = Inr (po', c')"
  then have "merge_loop (po, zero_counters) translations = Inr (po', c')"
    by (simp add: merge_def)
  from merge_loop_total [OF this] show
    "updated_count c' + skipped_count c' + not_found_count c' \<le> length translations"
    by (simp add: counters_total_def zero_counters_def)
qed

theorem counter_accounting_witness:
  "merge_record ([\<lparr>msgid = ''Save'', msgid_plural = [], msgstr = [], msgstr_plural = [],
                   occurrences = [], fuzzy = True\<rparr>], zero_counters) (''Save'', LegacyStr ''Sauver'') =
     Inr ([\<lparr>msgid = ''Save'', msgid_plural = [], msgstr = ''Sauver'', msgstr_plural = [],
            occurrences = [], fuzzy = False\<rparr>],
          zero_counters\<lparr>updated_count := updated_count zero_counters + 1\<rparr>) \<and>
   merge [\<lparr>msgid = ''Save'', msgid_plural = [], msgstr = [], msgstr_plural = [],
            occurrences = [], fuzzy = True\<rparr>]
     [(''Save'', LegacyStr ''Sauver''), (''Open'', LegacyStr ''Ouvrir''), (''Close'', LegacyStr '''')] =
     Inr ([\<lparr>msgid = ''Save'', msgid_plural = [], msgstr = ''Sauver'', msgstr_plural = [],
            occurrences = [], fuzzy = False\<rparr>],
          \<lparr>updated_count = 1, skipped_count = 1, not_found_count = 1\<rparr>) \<and>
   updated_count \<lparr>updated_count = 1, skipped_count = 1, not_found_count = 1\<rparr> +
   skipped_count \<lparr>updated_count = 1, skipped_count = 1, not_found_count = 1\<rparr> +
   not_found_count \<lparr>updated_count = 1, skipped_count = 1, not_found_count = 1\<rparr>
     \<le> length [(''Save'', LegacyStr ''Sauver''), (''Open'', LegacyStr ''Ouvrir''), (''Close'', LegacyStr '''')]"
proof -
  let ?e = "\<lparr>msgid = ''Save'', msgid_plural = [], msgstr = [], msgstr_plural = [],
             occurrences = [], fuzzy = True\<rparr>"
  let ?e' = "\<lparr>msgid = ''Save'', msgid_plural = [], msgstr = ''Sauver'', msgstr_plural = [],
             occurrences = [], fuzzy = False\<rparr>"
  let ?rs = "[(''Save'', LegacyStr ''Sauver''), (''Open'', LegacyStr ''Ouvrir''), (''Close'', LegacyStr '''')]"
  have b: "\<not> is_blank ''Sauver''" "\<not> is_blank ''Ouvrir''" "is_blank ''''"
    by (simp_all add: is_blank_def py_strip_def py_isspace_def)
  have s: "merge_record ([?e], zero_counters) (''Save'', LegacyStr ''Sauver'') =
           Inr ([?e'], zero_counters\<lparr>updated_count := updated_count zero_counters + 1\<rparr>)"
    using b by (simp add: set_msgstr_def)
  have m: "merge [?e] ?rs = Inr ([?e'], \<lparr>updated_count = 1, skipped_count = 1, not_found_count = 1\<rparr>)"
    using b by (simp add: merge_def set_msgstr_def skip_def miss_def zero_counters_def)
  from counter_accounting [of "[?e]" zero_counters "(''Save'', LegacyStr ''Sauver'')" "[?e']"
      "zero_counters\<lparr>updated_count := updated_count zero_counters + 1\<rparr>" "?rs" "[?e']"
      "\<lparr>updated_count = 1, skipped_count = 1, not_found_count = 1\<rparr>"] s m
  show ?thesis by blast
qed

section \<open>Extraction: the three loops\<close>

lemma already_added_iff: "already_added acc m \<longleftrightarrow> m \<in> rec_msgid ` set acc"
  by (auto simp: already_added_def list_ex_iff)

lemma rec_msgid_entry_dict [simp]: "rec_msgid (entry_dict m e) = m"
  by (simp add: entry_dict_def)

lemma collect_distinct:
  "distinct (map rec_msgid acc) \<Longrightarrow> distinct (map rec_msgid (collect cand rec acc xs))"
  by (induction xs arbitrary: acc) (auto simp: already_added_iff)


lemma collect_subset:
  "set (collect cand rec acc xs) \<subseteq> set acc \<union> rec ` {x \<in> set xs. cand x}"
proof (induction xs arbitrary: acc)
  case Nil
  then show ?case by simp
next
  case (Cons x xs)
  let ?acc = "if cand x \<and> \<not> already_added acc (rec_msgid (rec x)) then acc @ [rec x] else acc"
  have "set ?acc \<subseteq> set acc \<union> rec ` {y \<in> set (x # xs). cand y}" by auto
  moreover have "rec ` {y \<in> set xs. cand y} \<subseteq> rec ` {y \<in> set (x # xs). cand y}" by auto
  moreover have "set (collect cand rec ?acc xs) \<subseteq> set ?acc \<union> rec ` {y \<in> set xs. cand y}"
    by (rule Cons.IH)
  ultimately have "set (collect cand rec ?acc xs) \<subseteq> set acc \<union> rec ` {y \<in> set (x # xs). cand y}"
    by blast
  then show ?case by (simp only: collect.simps)
qed

lemma collect_first:
  "r \<in> set (collect cand rec acc xs) \<Longrightarrow>
   r \<in> set acc \<or>
   rec_msgid r \<notin> rec_msgid ` set acc \<and>
   (\<exists>x. List.find (\<lambda>x. cand x \<and> rec_msgid (rec x) = rec_msgid r) xs = Some x \<and> r = rec x)"
proof (induction xs arbitrary: acc)
  case Nil
  then show ?case by simp
next
  case (Cons x xs)
  let ?acc = "if cand x \<and> \<not> already_added acc (rec_msgid (rec x)) then acc @ [rec x] else acc"
  let ?P = "\<lambda>x. cand x \<and> rec_msgid (rec x) = rec_msgid r"
  from Cons.prems have "r \<in> set (collect cand rec ?acc xs)" by simp
  from Cons.IH [OF this] consider (old) "r \<in> set ?acc"
    | (new) y where "rec_msgid r \<notin> rec_msgid ` set ?acc" "List.find ?P xs = Some y" "r = rec y"
    by blast
  then show ?case
  proof cases
    case old
    show ?thesis
    proof (cases "r \<in> set acc")
      case True
      then show ?thesis by simp
    next
      case False
      with old have "cand x" "\<not> already_added acc (rec_msgid (rec x))" "r = rec x"
        by (auto split: if_splits)
      then show ?thesis by (simp add: already_added_iff)
    qed
  next
    case new
    have sub: "rec_msgid ` set acc \<subseteq> rec_msgid ` set ?acc" by auto
    have "\<not> ?P x"
    proof
      assume "?P x"
      then have "rec_msgid r \<in> rec_msgid ` set ?acc" by (auto simp: already_added_iff)
      with new(1) show False by simp
    qed
    with new sub show ?thesis by auto
  qed
qed


lemma html_entry_step:
  "html_entry acc e =
   (if html_candidate e \<and> \<not> already_added acc (rec_msgid (entry_dict (msgid e) e))
    then acc @ [entry_dict (msgid e) e] else acc)"
  by (simp add: html_entry_def html_candidate_def append_new_def)

lemma html_loop_collect:
  "html_loop acc po = collect html_candidate (\<lambda>e. entry_dict (msgid e) e) acc po"
  by (induction po arbitrary: acc) (simp_all only: html_loop.simps collect.simps html_entry_step)

lemma occurrence_loop_eq:
  "occurrence_loop env acc entry occs =
   (if list_ex (occurrence_imported env) occs then append_new acc (msgid entry) entry else acc)"
proof (induction occs)
  case Nil
  then show ?case by simp
next
  case (Cons occ occs)
  obtain file_path line_num where o: "occ = (file_path, line_num)" by (cases occ)
  show ?case
  proof (cases "occurrence_imported env occ")
    case True
    then show ?thesis unfolding o by (simp add: occurrence_imported_def)
  next
    case False
    then have "occurrence_loop env acc entry (occ # occs) = occurrence_loop env acc entry occs"
      unfolding o by (auto simp: occurrence_imported_def)
    with False Cons.IH show ?thesis by simp
  qed
qed

lemma modules_entry_step:
  "modules_entry env acc e =
   (if modules_candidate env e \<and> \<not> already_added acc (rec_msgid (entry_dict (msgid e) e))
    then acc @ [entry_dict (msgid e) e] else acc)"
  by (simp add: modules_entry_def modules_candidate_def occurrence_loop_eq append_new_def)

lemma modules_loop_collect:
  "modules_loop env acc po = collect (modules_candidate env) (\<lambda>e. entry_dict (msgid e) e) acc po"
  by (induction po arbitrary: acc)
     (simp_all only: modules_loop.simps collect.simps modules_entry_step)

lemma helptexts_key_step:
  "helptexts_key env po acc item =
   (if helptexts_candidate env po item \<and>
       \<not> already_added acc (rec_msgid (entry_dict (snd item) (po ! the (po_find po (snd item)))))
    then acc @ [entry_dict (snd item) (po ! the (po_find po (snd item)))] else acc)"
  by (cases item)
     (simp add: helptexts_key_def helptexts_candidate_def append_new_def split: option.splits)

lemma helptexts_loop_collect:
  "helptexts_loop env po acc items =
   collect (helptexts_candidate env po)
     (\<lambda>item. entry_dict (snd item) (po ! the (po_find po (snd item)))) acc items"
  by (induction items arbitrary: acc)
     (simp_all only: helptexts_loop.simps collect.simps helptexts_key_step)

lemma run_origin:
  "r \<in> set (html_run po) \<Longrightarrow> \<exists>e\<in>set po. html_candidate e \<and> r = entry_dict (msgid e) e"
  "r \<in> set (modules_run env po) \<Longrightarrow> \<exists>e\<in>set po. modules_candidate env e \<and> r = entry_dict (msgid e) e"
  "r \<in> set (helptexts_run env po help_texts) \<Longrightarrow>
     \<exists>item\<in>set help_texts. \<exists>i. helptexts_candidate env po item \<and> po_find po (snd item) = Some i \<and>
        \<not> translated (po ! i) \<and> r = entry_dict (snd item) (po ! i)"
proof -
  assume "r \<in> set (html_run po)"
  then show "\<exists>e\<in>set po. html_candidate e \<and> r = entry_dict (msgid e) e"
    using collect_subset [of html_candidate "\<lambda>e. entry_dict (msgid e) e" "[]" po]
    by (auto simp: html_run_def html_loop_collect)
next
  assume "r \<in> set (modules_run env po)"
  then show "\<exists>e\<in>set po. modules_candidate env e \<and> r = entry_dict (msgid e) e"
    using collect_subset [of "modules_candidate env" "\<lambda>e. entry_dict (msgid e) e" "[]" po]
    by (auto simp: modules_run_def modules_loop_collect)
next
  assume "r \<in> set (helptexts_run env po help_texts)"
  then obtain item where i: "item \<in> set help_texts" "helptexts_candidate env po item"
    "r = entry_dict (snd item) (po ! the (po_find po (snd item)))"
    using collect_subset [of "helptexts_candidate env po"
        "\<lambda>item. entry_dict (snd item) (po ! the (po_find po (snd item)))" "[]" help_texts]
    by (auto simp: helptexts_run_def helptexts_loop_collect)
  from i(2) obtain j where "po_find po (snd item) = Some j" "\<not> translated (po ! j)"
    by (cases item) (auto simp: helptexts_candidate_def split: option.splits)
  with i show "\<exists>item\<in>set help_texts. \<exists>i. helptexts_candidate env po item \<and> po_find po (snd item) = Some i \<and>
        \<not> translated (po ! i) \<and> r = entry_dict (snd item) (po ! i)"
    by auto
qed


lemma distinct_msgid_eq:
  assumes "distinct (map msgid po)" "e \<in> set po" "e' \<in> set po" "msgid e = msgid e'"
  shows "e = e'"
  using assms by (meson distinct_map inj_onD)

lemma example_module:
  "path_exists example_env (abs_file_path example_env ''pkg/sub/mod.py'')"
  "module_imported example_env (module_name_of example_env (abs_file_path example_env ''pkg/sub/mod.py''))"
  "\<not> path_exists example_env (abs_file_path example_env ''missing/file.py'')"
  by (simp_all add: module_name_of_def abs_file_path_def example_env_def py_endswith_def
      module_imported_def)

lemma example_keys:
  "resolve_key example_env ''pkg.sub'' = PyObj ''sub''"
  "resolve_key example_env ''pkg.sub.mod'' = PyObj ''mod''"
  by (simp_all add: resolve_key_def example_env_def)

section \<open>Extraction: no msgid twice\<close>

text \<open>
  Claim C6. Under each of the three strategies the extracted records carry pairwise
  different msgids, whatever the catalog holds. The first candidate with a msgid wins:
  every record of the output is the record of the first selected entry (or help text) with
  its msgid in iteration order; a later candidate with that msgid adds nothing, and the
  run returns its list all the same.
\<close>

theorem extraction_no_duplicate_msgid:
  "distinct (map rec_msgid (html_run po)) \<and>
   distinct (map rec_msgid (modules_run env po)) \<and>
   distinct (map rec_msgid (helptexts_run env po help_texts)) \<and>
   (\<forall>r\<in>set (html_run po).
      \<exists>e. List.find (\<lambda>e. html_candidate e \<and> msgid e = rec_msgid r) po = Some e \<and>
          r = entry_dict (msgid e) e) \<and>
   (\<forall>r\<in>set (modules_run env po).
      \<exists>e. List.find (\<lambda>e. modules_candidate env e \<and> msgid e = rec_msgid r) po = Some e \<and>
          r = entry_dict (msgid e) e) \<and>
   (\<forall>r\<in>set (helptexts_run env po help_texts).
      \<exists>item i. List.find (\<lambda>item. helptexts_candidate env po item \<and> snd item = rec_msgid r)
                  help_texts = Some item \<and>
          po_find po (snd item) = Some i \<and> r = entry_dict (snd item) (po ! i))"
proof (intro conjI ballI)
  show "distinct (map rec_msgid (html_run po))"
    by (simp add: html_run_def html_loop_collect collect_distinct)
  show "distinct (map rec_msgid (modules_run env po))"
    by (simp add: modules_run_def modules_loop_collect collect_distinct)
  show "distinct (map rec_msgid (helptexts_run env po help_texts))"
    by (simp add: helptexts_run_def helptexts_loop_collect collect_distinct)
next
  fix r assume "r \<in> set (html_run po)"
  then have "r \<in> set (collect html_candidate (\<lambda>e. entry_dict (msgid e) e) [] po)"
    by (simp add: html_run_def html_loop_collect)
  from collect_first [OF this]
  show "\<exists>e. List.find (\<lambda>e. html_candidate e \<and> msgid e = rec_msgid r) po = Some e \<and>
          r = entry_dict (msgid e) e"
    by simp
next
  fix r assume "r \<in> set (modules_run env po)"
  then have "r \<in> set (collect (modules_candidate env) (\<lambda>e. entry_dict (msgid e) e) [] po)"
    by (simp add: modules_run_def modules_loop_collect)
  from collect_first [OF this]
  show "\<exists>e. List.find (\<lambda>e. modules_candidate env e \<and> msgid e = rec_msgid r) po = Some e \<and>
          r = entry_dict (msgid e) e"
    by simp
next
  fix r assume "r \<in> set (helptexts_run env po help_texts)"
  then have "r \<in> set (collect (helptexts_candidate env po)
     (\<lambda>item. entry_dict (snd item) (po ! the (po_find po (snd item)))) [] help_texts)"
    by (simp add: helptexts_run_def helptexts_loop_collect)
  from collect_first [OF this]
  obtain item where f: "List.find (\<lambda>item. helptexts_candidate env po item \<and> snd item = rec_msgid r)
                  help_texts = Some item"
    and r: "r = entry_dict (snd item) (po ! the (po_find po (snd item)))"
    by auto
  from f have "helptexts_candidate env po item" by (auto simp: find_Some_iff)
  then obtain i where "po_find po (snd item) = Some i"
    by (cases item) (auto simp: helptexts_candidate_def split: option.splits)
  with f r show "\<exists>item i. List.find (\<lambda>item. helptexts_candidate env po item \<and> snd item = rec_msgid r)
                  help_texts = Some item \<and>
          po_find po (snd item) = Some i \<and> r = entry_dict (snd item) (po ! i)"
    by auto
qed

theorem extraction_no_duplicate_msgid_witness:
  "html_run [untranslated_entry ''Save'' [] [(''t/base.html'', 3)],
             untranslated_entry ''Save'' ''Saves'' [(''t/list.html'', 9)]] =
     [\<lparr>rec_msgid = ''Save'', rec_msgid_plural = None\<rparr>] \<and>
   modules_run example_env
            [untranslated_entry ''Save'' [] [(''pkg/sub/mod.py'', 3)],
             untranslated_entry ''Save'' ''Saves'' [(''pkg/sub/mod.py'', 9)]] =
     [\<lparr>rec_msgid = ''Save'', rec_msgid_plural = None\<rparr>] \<and>
   helptexts_run example_env [untranslated_entry ''Save'' [] []]
            [(''pkg.sub'', ''Save''), (''pkg.sub.mod'', ''Save'')] =
     [\<lparr>rec_msgid = ''Save'', rec_msgid_plural = None\<rparr>] \<and>
   (\<exists>e. List.find (\<lambda>e. html_candidate e \<and> msgid e = ''Save'')
            [untranslated_entry ''Save'' [] [(''t/base.html'', 3)],
             untranslated_entry ''Save'' ''Saves'' [(''t/list.html'', 9)]] = Some e \<and>
        \<lparr>rec_msgid = ''Save'', rec_msgid_plural = None\<rparr> = entry_dict (msgid e) e) \<and>
   (\<exists>e. List.find (\<lambda>e. modules_candidate example_env e \<and> msgid e = ''Save'')
            [untranslated_entry ''Save'' [] [(''pkg/sub/mod.py'', 3)],
             untranslated_entry ''Save'' ''Saves'' [(''pkg/sub/mod.py'', 9)]] = Some e \<and>
        \<lparr>rec_msgid = ''Save'', rec_msgid_plural = None\<rparr> = entry_dict (msgid e) e) \<and>
   (\<exists>item i. List.find (\<lambda>item. helptexts_candidate example_env [untranslated_entry ''Save'' [] []] item \<and>
                             snd item = ''Save'')
            [(''pkg.sub'', ''Save''), (''pkg.sub.mod'', ''Save'')] = Some item \<and>
        po_find [untranslated_entry ''Save'' [] []] (snd item) = Some i \<and>
        \<lparr>rec_msgid = ''Save'', rec_msgid_plural = None\<rparr> =
          entry_dict (snd item) ([untranslated_entry ''Save'' [] []] ! i))"
proof -
  let ?r = "\<lparr>rec_msgid = ''Save'', rec_msgid_plural = None\<rparr>"
  let ?hpo = "[untranslated_entry ''Save'' [] [(''t/base.html'', 3)],
               untranslated_entry ''Save'' ''Saves'' [(''t/list.html'', 9)]]"
  let ?mpo = "[untranslated_entry ''Save'' [] [(''pkg/sub/mod.py'', 3)],
               untranslated_entry ''Save'' ''Saves'' [(''pkg/sub/mod.py'', 9)]]"
  let ?tpo = "[untranslated_entry ''Save'' [] []]"
  let ?ht = "[(''pkg.sub'', ''Save''), (''pkg.sub.mod'', ''Save'')]"
  have h: "html_run ?hpo = [?r]"
    by (simp add: html_run_def html_entry_def untranslated_entry_def translated_def
        py_endswith_def append_new_def already_added_def entry_dict_def)
  have mn: "module_name_of example_env (abs_file_path example_env ''pkg/sub/mod.py'') = ''pkg.sub.mod''"
    by (simp add: module_name_of_def abs_file_path_def example_env_def py_endswith_def)
  have ex: "path_exists example_env (abs_file_path example_env ''pkg/sub/mod.py'')"
    by (simp add: abs_file_path_def example_env_def)
  have im: "module_imported example_env ''pkg.sub.mod''"
    by (simp add: module_imported_def example_env_def)
  have m: "modules_run example_env ?mpo = [?r]"
    using mn ex im
    by (simp add: modules_run_def modules_entry_def untranslated_entry_def translated_def
        append_new_def already_added_def entry_dict_def)
  have rk: "resolve_key example_env ''pkg.sub'' = PyObj ''sub''"
    "resolve_key example_env ''pkg.sub.mod'' = PyObj ''mod''"
    by (simp_all add: resolve_key_def example_env_def)
  have t: "helptexts_run example_env ?tpo ?ht = [?r]"
    using rk
    by (simp add: helptexts_run_def helptexts_key_def untranslated_entry_def translated_def
        append_new_def already_added_def entry_dict_def)
  from extraction_no_duplicate_msgid [where po = ?hpo and env = example_env and help_texts = ?ht]
    extraction_no_duplicate_msgid [where po = ?mpo and env = example_env and help_texts = ?ht]
    extraction_no_duplicate_msgid [where po = ?tpo and env = example_env and help_texts = ?ht]
    h m t
  show ?thesis by simp
qed

section \<open>Extraction: translated entries stay out\<close>

text \<open>
  Claim C7. Under each of the three strategies every extracted record is the record of a
  catalog entry that is not translated; so, msgids being unique in a catalog, the msgid
  of a translated entry is in no output, whatever its occurrences and whatever is loaded.
\<close>

theorem translated_never_extracted:
  "(\<forall>r\<in>set (html_run po). \<exists>e\<in>set po. \<not> translated e \<and> r = entry_dict (msgid e) e) \<and>
   (\<forall>r\<in>set (modules_run env po). \<exists>e\<in>set po. \<not> translated e \<and> r = entry_dict (msgid e) e) \<and>
   (\<forall>r\<in>set (helptexts_run env po help_texts).
      \<exists>e\<in>set po. \<not> translated e \<and> r = entry_dict (msgid e) e) \<and>
   (distinct (map msgid po) \<and> entry \<in> set po \<and> translated entry \<longrightarrow>
      msgid entry \<notin> rec_msgid ` set (html_run po) \<and>
      msgid entry \<notin> rec_msgid ` set (modules_run env po) \<and>
      msgid entry \<notin> rec_msgid ` set (helptexts_run env po help_texts))"
proof -
  have h: "\<exists>e\<in>set po. \<not> translated e \<and> r = entry_dict (msgid e) e" if "r \<in> set (html_run po)" for r
    using run_origin(1) [OF that] by (auto simp: html_candidate_def)
  have m: "\<exists>e\<in>set po. \<not> translated e \<and> r = entry_dict (msgid e) e"
    if "r \<in> set (modules_run env po)" for r
    using run_origin(2) [OF that] by (auto simp: modules_candidate_def)
  have t: "\<exists>e\<in>set po. \<not> translated e \<and> r = entry_dict (msgid e) e"
    if "r \<in> set (helptexts_run env po help_texts)" for r
  proof -
    from run_origin(3) [OF that] obtain item i where
      i: "po_find po (snd item) = Some i" "\<not> translated (po ! i)" "r = entry_dict (snd item) (po ! i)"
      by auto
    from po_find_Some [OF i(1)] have "po ! i \<in> set po" "msgid (po ! i) = snd item" by simp_all
    with i show ?thesis by auto
  qed
  have d: "msgid entry \<notin> rec_msgid ` set rs"
    if "distinct (map msgid po)" "entry \<in> set po" "translated entry"
      and o: "\<And>r. r \<in> set rs \<Longrightarrow> \<exists>e\<in>set po. \<not> translated e \<and> r = entry_dict (msgid e) e" for rs
  proof
    assume "msgid entry \<in> rec_msgid ` set rs"
    then obtain r where "r \<in> set rs" "rec_msgid r = msgid entry" by auto
    with o obtain e where e: "e \<in> set po" "\<not> translated e" "msgid e = msgid entry" by fastforce
    from distinct_msgid_eq [OF that(1) e(1) that(2) e(3)] e(2) that(3) show False by simp
  qed
  show ?thesis using h m t d by blast
qed

theorem translated_never_extracted_witness:
  "translated ((untranslated_entry ''Save'' [] [(''pkg/sub/mod.py'', 3), (''t/base.html'', 4)])
                 \<lparr>msgstr := ''Sauver''\<rparr>) \<and>
   html_run [(untranslated_entry ''Save'' [] [(''pkg/sub/mod.py'', 3), (''t/base.html'', 4)])
                 \<lparr>msgstr := ''Sauver''\<rparr>,
             untranslated_entry ''Open'' [] [(''pkg/sub/mod.py'', 7), (''t/base.html'', 8)]] =
     [\<lparr>rec_msgid = ''Open'', rec_msgid_plural = None\<rparr>] \<and>
   modules_run example_env
            [(untranslated_entry ''Save'' [] [(''pkg/sub/mod.py'', 3), (''t/base.html'', 4)])
                 \<lparr>msgstr := ''Sauver''\<rparr>,
             untranslated_entry ''Open'' [] [(''pkg/sub/mod.py'', 7), (''t/base.html'', 8)]] =
     [\<lparr>rec_msgid = ''Open'', rec_msgid_plural = None\<rparr>] \<and>
   helptexts_run example_env
            [(untranslated_entry ''Save'' [] [(''pkg/sub/mod.py'', 3), (''t/base.html'', 4)])
                 \<lparr>msgstr := ''Sauver''\<rparr>,
             untranslated_entry ''Open'' [] [(''pkg/sub/mod.py'', 7), (''t/base.html'', 8)]]
            [(''pkg.sub'', ''Save''), (''pkg.sub.mod'', ''Open'')] =
     [\<lparr>rec_msgid = ''Open'', rec_msgid_plural = None\<rparr>] \<and>
   ''Save'' \<notin> rec_msgid ` set (html_run
            [(untranslated_entry ''Save'' [] [(''pkg/sub/mod.py'', 3), (''t/base.html'', 4)])
                 \<lparr>msgstr := ''Sauver''\<rparr>,
             untranslated_entry ''Open'' [] [(''pkg/sub/mod.py'', 7), (''t/base.html'', 8)]]) \<and>
   (\<exists>e. \<not> translated e \<and> \<lparr>rec_msgid = ''Open'', rec_msgid_plural = None\<rparr> = entry_dict (msgid e) e)"
proof -
  let ?e1 = "(untranslated_entry ''Save'' [] [(''pkg/sub/mod.py'', 3), (''t/base.html'', 4)])
                 \<lparr>msgstr := ''Sauver''\<rparr>"
  let ?e2 = "untranslated_entry ''Open'' [] [(''pkg/sub/mod.py'', 7), (''t/base.html'', 8)]"
  let ?ht = "[(''pkg.sub'', ''Save''), (''pkg.sub.mod'', ''Open'')]"
  let ?r = "\<lparr>rec_msgid = ''Open'', rec_msgid_plural = None\<rparr>"
  have tr: "translated ?e1" "\<not> translated ?e2"
    by (simp_all add: translated_def untranslated_entry_def)
  have f: "msgid ?e1 = ''Save''" "msgid ?e2 = ''Open''" "msgid_plural ?e2 = []"
    "occurrences ?e2 = [(''pkg/sub/mod.py'', 7), (''t/base.html'', 8)]"
    by (simp_all add: untranslated_entry_def)
  have h: "html_run [?e1, ?e2] = [?r]"
    using tr f
    by (simp add: html_run_def html_entry_def py_endswith_def append_new_def already_added_def
        entry_dict_def)
  have m: "modules_run example_env [?e1, ?e2] = [?r]"
    using tr f example_module
    by (simp add: modules_run_def modules_entry_def append_new_def already_added_def entry_dict_def)
  have t: "helptexts_run example_env [?e1, ?e2] ?ht = [?r]"
    using tr f example_keys
    by (simp add: helptexts_run_def helptexts_key_def append_new_def already_added_def entry_dict_def)
  have d: "distinct (map msgid [?e1, ?e2])" "?e1 \<in> set [?e1, ?e2]"
    by (simp_all add: untranslated_entry_def)
  note T = translated_never_extracted [where po = "[?e1, ?e2]" and env = example_env
      and help_texts = ?ht and entry = ?e1]
  from T have "\<forall>r\<in>set (html_run [?e1, ?e2]).
      \<exists>e\<in>set [?e1, ?e2]. \<not> translated e \<and> r = entry_dict (msgid e) e"
    by (rule conjunct1)
  with h have x: "\<exists>e. \<not> translated e \<and> ?r = entry_dict (msgid e) e"
    by (metis list.set_intros(1))
  from T d tr(1) have "msgid ?e1 \<notin> rec_msgid ` set (html_run [?e1, ?e2])"
    by blast
  then have y: "''Save'' \<notin> rec_msgid ` set (html_run [?e1, ?e2])"
    by (simp add: untranslated_entry_def)
  from tr(1) h m t x y show ?thesis by blast
qed

section \<open>Module paths: occurrences whose file is missing\<close>






section \<open>Merge: the plural slots\<close>









section \<open>Merge: what one record does\<close>














section \<open>Merge: applying a record twice\<close>






section \<open>Round trip: extract, translate, merge, extract\<close>










section \<open>Dotted symbols: the walk and the value None\<close>

text \<open>
  Where no loaded module and no attribute is \<^verbatim>\<open>None\<close>, the walk resolves a key exactly
  when every segment is resolved as a directly loaded prefix or as an attribute of the
  previously resolved object.
\<close>

lemma py_split_not_Nil: "py_split sep s \<noteq> []"
  by (induction s) (auto split: list.splits)

lemma walk_spec_walk:
  assumes "\<And>name. sys_modules env name \<noteq> Some PyNone"
    and "\<And>obj part. py_getattr env obj part \<noteq> Some PyNone"
  shows "(walk env parts i obj rest \<noteq> PyNone) =
         (spec_walk env parts i (if obj = PyNone then None else Some obj) rest \<and>
          (rest = [] \<longrightarrow> obj \<noteq> PyNone))"
proof (induction rest arbitrary: i obj)
  case Nil
  then show ?case by simp
next
  case (Cons part rest)
  show ?case
  proof (cases "sys_modules env (py_join ''.'' (take (i + 1) parts))")
    case (Some m)
    with assms(1) have "m \<noteq> PyNone" by metis
    with Some Cons.IH [of "i + 1" m] show ?thesis by (cases rest) auto
  next
    case None
    show ?thesis
    proof (cases "obj = PyNone")
      case True
      with None show ?thesis by simp
    next
      case False
      show ?thesis
      proof (cases "py_getattr env obj part")
        case None
        with \<open>sys_modules env (py_join ''.'' (take (i + 1) parts)) = None\<close> False
        show ?thesis by simp
      next
        case (Some v)
        with assms(2) have "v \<noteq> PyNone" by metis
        with Some \<open>sys_modules env (py_join ''.'' (take (i + 1) parts)) = None\<close> False
          Cons.IH [of "i + 1" v]
        show ?thesis by (cases rest) auto
      qed
    qed
  qed
qed

lemma resolve_key_spec:
  assumes "\<And>name. sys_modules env name \<noteq> Some PyNone"
    and "\<And>obj part. py_getattr env obj part \<noteq> Some PyNone"
  shows "(resolve_key env k \<noteq> PyNone) = spec_resolves env k"
  using walk_spec_walk [OF assms, of "py_split (CHR ''.'') k" 0 PyNone "py_split (CHR ''.'') k"]
  by (simp add: resolve_key_def spec_resolves_def py_split_not_Nil Let_def)

text \<open>
  Claim C9. The walk keeps its current object in \<^verbatim>\<open>obj\<close> and uses \<^verbatim>\<open>None\<close> for
  "not resolved". For the key \<^verbatim>\<open>app.title\<close>, with \<^verbatim>\<open>app\<close> loaded and its attribute
  \<^verbatim>\<open>title\<close> holding \<^verbatim>\<open>None\<close>, every segment is resolved one of the two ways, and the
  walk ends with \<^verbatim>\<open>None\<close>: the key counts as not resolved.
\<close>

theorem dotted_walk_none_attribute:
  "resolve_key example_env ''app.title'' = PyNone \<and> spec_resolves example_env ''app.title''"
  by (simp add: resolve_key_def spec_resolves_def example_env_def)

end
